theory Spec2Isabelle
  imports Main "HOL-Library.Char_ord" "HOL-Library.List_Lexorder"
begin

section \<open>Exceptions\<close>

text \<open>
  Every \<^verbatim>\<open>raise\<close> of \<^verbatim>\<open>kattis.py\<close>, and every exception of a collaborator that the
  code lets through, is a value of \<open>error\<close>; a fallible operation returns
  \<open>error + 'a\<close> with \<open>Inl\<close> for the exception.
  \<^item> \<open>ConfigError msg\<close>: \<^verbatim>\<open>cli.ConfigError(msg)\<close>;
  \<^item> \<open>PyException msg\<close>: the builtin \<^verbatim>\<open>Exception(msg)\<close> that \<^verbatim>\<open>login\<close> raises;
  \<^item> \<open>NoSectionError s\<close>, \<open>NoOptionError opt s\<close>: what \<^verbatim>\<open>ConfigParser.get\<close> and
    \<^verbatim>\<open>ConfigParser.set\<close> raise for a missing section or option;
  \<^item> \<open>InterpolationSyntaxError opt s\<close>, \<open>InterpolationMissingOptionError opt s var\<close>,
    \<open>InterpolationDepthError opt s\<close>: what \<^verbatim>\<open>ConfigParser.get\<close> raises while it
    expands the \<^verbatim>\<open>%\<close> of a value;
  \<^item> \<open>ParsingError p\<close>: what \<^verbatim>\<open>ConfigParser.read\<close> raises for the file at \<open>p\<close> when it
    opens and does not parse (a missing section header, a duplicate section or option,
    a line that is no option, bytes that do not decode);
  \<^item> \<open>KeyError\<close>: a failed \<^verbatim>\<open>self.cache[req]\<close>;
  \<^item> \<open>TypeError\<close>: raised by \<^verbatim>\<open>__lt__\<close> of the entities;
  \<^item> \<open>TransportError msg\<close>: anything \<^verbatim>\<open>Session.send\<close> raises.
\<close>

datatype error =
    ConfigError string
  | PyException string
  | NoSectionError string
  | NoOptionError string string
  | InterpolationSyntaxError string string
  | InterpolationMissingOptionError string string string
  | InterpolationDepthError string string
  | ParsingError string
  | KeyError
  | TypeError
  | TransportError string

text \<open>The Python class of an exception value.\<close>

datatype exc_class =
  ConfigError_class | Exception_class | NoSectionError_class | NoOptionError_class
  | InterpolationSyntaxError_class | InterpolationMissingOptionError_class
  | InterpolationDepthError_class | ParsingError_class
  | KeyError_class | TypeError_class | TransportError_class

fun exc_type :: "error \<Rightarrow> exc_class" where
  "exc_type (ConfigError m) = ConfigError_class"
| "exc_type (PyException m) = Exception_class"
| "exc_type (NoSectionError s) = NoSectionError_class"
| "exc_type (NoOptionError opt s) = NoOptionError_class"
| "exc_type (InterpolationSyntaxError opt s) = InterpolationSyntaxError_class"
| "exc_type (InterpolationMissingOptionError opt s var) = InterpolationMissingOptionError_class"
| "exc_type (InterpolationDepthError opt s) = InterpolationDepthError_class"
| "exc_type (ParsingError p) = ParsingError_class"
| "exc_type KeyError = KeyError_class"
| "exc_type TypeError = TypeError_class"
| "exc_type (TransportError m) = TransportError_class"

section \<open>Requests, responses and the transport\<close>

text \<open>
  A \<^verbatim>\<open>requests.Request\<close> is a plain Python object: the class defines neither
  \<^verbatim>\<open>__eq__\<close> nor \<^verbatim>\<open>__hash__\<close>, so as a dictionary key it is compared by object
  identity. The record therefore carries the identity of the object (\<open>req_id\<close>) next to
  the fields that specify the HTTP call (\<open>http_method\<close> is the attribute \<^verbatim>\<open>method\<close>). The
  dictionaries of a request are association lists in insertion order.
\<close>

type_synonym pydict = "(string \<times> string) list"

record request =
  req_id :: nat
  http_method :: string
  url :: string
  headers :: pydict
  data :: pydict
  params :: pydict
  cookies :: pydict

text \<open>Structural equality of two requests: all fields of the HTTP call agree.\<close>

definition same_fields :: "request \<Rightarrow> request \<Rightarrow> bool" where
  "same_fields r1 r2 =
     (http_method r1 = http_method r2 \<and> url r1 = url r2 \<and> headers r1 = headers r2 \<and>
      data r1 = data r2 \<and> params r1 = params r2 \<and> cookies r1 = cookies r2)"

text \<open>
  A \<^verbatim>\<open>Response\<close> is an object too: \<open>resp_id\<close> is its identity, \<open>status_code\<close> and
  \<open>resp_cookies\<close> are the two attributes the code reads.
\<close>

record response =
  resp_id :: nat
  status_code :: int
  resp_cookies :: pydict

text \<open>
  The transport collaborator, \<^verbatim>\<open>Session().send(req.prepare())\<close>, is a parameter: given
  the number of network calls made so far and the request, it raises or answers with a
  status and cookies. The network log is the list of requests sent so far, oldest first;
  each call appends to it and each answer is a fresh \<^verbatim>\<open>Response\<close> object.
\<close>

type_synonym transport = "nat \<Rightarrow> request \<Rightarrow> error + (int \<times> pydict)"

type_synonym netlog = "request list"

definition session_send :: "transport \<Rightarrow> request \<Rightarrow> netlog \<Rightarrow> (error + response) \<times> netlog" where
  "session_send net req log =
     (case net (length log) req of
        Inl e \<Rightarrow> (Inl e, log @ [req])
      | Inr (st, ck) \<Rightarrow>
          (Inr \<lparr>resp_id = length log, status_code = st, resp_cookies = ck\<rparr>, log @ [req]))"

section \<open>RequestCache (kattis.py)\<close>

text \<open>
  \<^verbatim>\<open>self.cache: dict[Request, Response]\<close>: a dictionary whose keys are request objects,
  hence a map from object identities to responses.
\<close>

type_synonym cache_dict = "nat \<rightharpoonup> response"

definition dict_get :: "cache_dict \<Rightarrow> request \<Rightarrow> error + response" where
  "dict_get c req = (case c (req_id req) of None \<Rightarrow> Inl KeyError | Some r \<Rightarrow> Inr r)"

definition RequestCache_init :: cache_dict where
  "RequestCache_init = Map.empty"

definition RequestCache_contains :: "cache_dict \<Rightarrow> request \<Rightarrow> bool" where
  "RequestCache_contains c req = (c (req_id req) \<noteq> None)"

definition RequestCache_invalidate :: "cache_dict \<Rightarrow> request \<Rightarrow> cache_dict" where
  "RequestCache_invalidate c req = c(req_id req := None)"

text \<open>
  \<^verbatim>\<open>if not use_cached or req not in self: self.cache[req] = ...send(req.prepare())\<close>
  followed by \<^verbatim>\<open>return self.cache[req]\<close>. The right-hand side is evaluated before the
  store, so a raising transport leaves the dictionary as it was. The condition is
  written as the negation of \<^verbatim>\<open>use_cached and req in self\<close>. The state is the dictionary
  and the network log.
\<close>

definition RequestCache_send ::
  "transport \<Rightarrow> request \<Rightarrow> bool \<Rightarrow> cache_dict \<times> netlog \<Rightarrow> (error + response) \<times> cache_dict \<times> netlog" where
  "RequestCache_send net req use_cached s =
     (case s of (c, log) \<Rightarrow>
        if \<not> (use_cached \<and> RequestCache_contains c req) then
          (case session_send net req log of
             (Inl e, log') \<Rightarrow> (Inl e, c, log')
           | (Inr resp, log') \<Rightarrow> (dict_get (c(req_id req \<mapsto> resp)) req, c(req_id req \<mapsto> resp), log'))
        else (dict_get c req, c, log))"

section \<open>ResponseCache (response\_cache.py)\<close>

definition ResponseCache_init :: cache_dict where
  "ResponseCache_init = Map.empty"

definition ResponseCache_contains :: "cache_dict \<Rightarrow> request \<Rightarrow> bool" where
  "ResponseCache_contains c req = (c (req_id req) \<noteq> None)"

definition ResponseCache_invalidate :: "cache_dict \<Rightarrow> request \<Rightarrow> cache_dict" where
  "ResponseCache_invalidate c req = c(req_id req := None)"

definition ResponseCache_send ::
  "transport \<Rightarrow> request \<Rightarrow> bool \<Rightarrow> cache_dict \<times> netlog \<Rightarrow> (error + response) \<times> cache_dict \<times> netlog" where
  "ResponseCache_send net req use_cached s =
     (case s of (c, log) \<Rightarrow>
        if \<not> (use_cached \<and> ResponseCache_contains c req) then
          (case session_send net req log of
             (Inl e, log') \<Rightarrow> (Inl e, c, log')
           | (Inr resp, log') \<Rightarrow> (dict_get (c(req_id req \<mapsto> resp)) req, c(req_id req \<mapsto> resp), log'))
        else (dict_get c req, c, log))"

subsection \<open>Sequences of cache operations\<close>

text \<open>
  A client of either cache calls \<^verbatim>\<open>in\<close>, \<^verbatim>\<open>invalidate\<close> and \<^verbatim>\<open>send\<close> in some order,
  catching what \<^verbatim>\<open>send\<close> raises. \<open>run\<close> collects what each call gave.
\<close>

datatype cache_op = Contains request | Invalidate request | Send request bool

datatype op_result = Bool_result bool | None_result | Send_result "error + response"

fun RequestCache_step :: "transport \<Rightarrow> cache_op \<Rightarrow> cache_dict \<times> netlog \<Rightarrow> op_result \<times> cache_dict \<times> netlog" where
  "RequestCache_step net (Contains r) (c, log) = (Bool_result (RequestCache_contains c r), c, log)"
| "RequestCache_step net (Invalidate r) (c, log) = (None_result, RequestCache_invalidate c r, log)"
| "RequestCache_step net (Send r u) (c, log) =
     (case RequestCache_send net r u (c, log) of (res, s') \<Rightarrow> (Send_result res, s'))"

fun ResponseCache_step :: "transport \<Rightarrow> cache_op \<Rightarrow> cache_dict \<times> netlog \<Rightarrow> op_result \<times> cache_dict \<times> netlog" where
  "ResponseCache_step net (Contains r) (c, log) = (Bool_result (ResponseCache_contains c r), c, log)"
| "ResponseCache_step net (Invalidate r) (c, log) = (None_result, ResponseCache_invalidate c r, log)"
| "ResponseCache_step net (Send r u) (c, log) =
     (case ResponseCache_send net r u (c, log) of (res, s') \<Rightarrow> (Send_result res, s'))"

fun run ::
  "(cache_op \<Rightarrow> cache_dict \<times> netlog \<Rightarrow> op_result \<times> cache_dict \<times> netlog) \<Rightarrow>
   cache_op list \<Rightarrow> cache_dict \<times> netlog \<Rightarrow> op_result list \<times> cache_dict \<times> netlog" where
  "run step [] s = ([], s)"
| "run step (x # xs) s =
     (case step x s of (r, s') \<Rightarrow> (case run step xs s' of (rs, s'') \<Rightarrow> (r # rs, s'')))"

subsection \<open>Two sends on one cache\<close>

text \<open>
  \<^verbatim>\<open>cache.send(r1)\<close> and then \<^verbatim>\<open>cache.send(r2, use_cached=True)\<close> on a new cache:
  the two results and the number of network calls made.
\<close>

definition send_twice ::
  "transport \<Rightarrow> request \<Rightarrow> request \<Rightarrow> (error + response) \<times> (error + response) \<times> nat" where
  "send_twice net r1 r2 =
     (case RequestCache_send net r1 True (RequestCache_init, []) of
        (a, s1) \<Rightarrow>
          (case RequestCache_send net r2 True s1 of
             (b, c2, log2) \<Rightarrow> (a, b, length log2)))"

section \<open>Configuration\<close>

text \<open>
  A \<^verbatim>\<open>ConfigParser\<close> as the code sees it through \<^verbatim>\<open>has_option\<close>, \<^verbatim>\<open>get\<close> and
  \<^verbatim>\<open>set\<close>: sections, each a map from option names to the values as written in the
  files. Option names are as \<^verbatim>\<open>optionxform\<close> leaves them, in lower case, and a section
  holds the options it has of its own and from \<^verbatim>\<open>[DEFAULT]\<close>.
\<close>

type_synonym config = "string \<rightharpoonup> (string \<rightharpoonup> string)"

definition has_option :: "config \<Rightarrow> string \<Rightarrow> string \<Rightarrow> bool" where
  "has_option cfg sec opt = (case cfg sec of None \<Rightarrow> False | Some opts \<Rightarrow> opts opt \<noteq> None)"

text \<open>
  \<^verbatim>\<open>ConfigParser\<close> expands values on \<^verbatim>\<open>get\<close> (\<^verbatim>\<open>BasicInterpolation\<close>): \<^verbatim>\<open>%%\<close> is a
  percent sign, \<^verbatim>\<open>%(name)s\<close> is the value of the option \<^verbatim>\<open>name\<close> of the same section,
  expanded in turn up to depth 10, and any other \<^verbatim>\<open>%\<close> is an error. \<open>optionxform\<close>
  lowers the letters \<^verbatim>\<open>A\<close> to \<^verbatim>\<open>Z\<close>. \<open>interpolate_some\<close> is \<^verbatim>\<open>_interpolate_some\<close> with
  the accumulated text as its result; \<open>key_name\<close> and \<open>key_rest\<close> are the name and the
  end of a match of \<^verbatim>\<open>%\(([^)]+)\)s\<close>, taken after the \<^verbatim>\<open>%(\<close>.
\<close>

definition lower_char :: "char \<Rightarrow> char" where
  "lower_char c =
     (case map_of (zip ''ABCDEFGHIJKLMNOPQRSTUVWXYZ'' ''abcdefghijklmnopqrstuvwxyz'') c of
        None \<Rightarrow> c
      | Some l \<Rightarrow> l)"

definition optionxform :: "string \<Rightarrow> string" where
  "optionxform s = map lower_char s"

definition key_name :: "string \<Rightarrow> string" where
  "key_name r = takeWhile (\<lambda>x. x \<noteq> CHR '')'') r"

definition key_rest :: "string \<Rightarrow> string" where
  "key_rest r = dropWhile (\<lambda>x. x \<noteq> CHR '')'') r"

function (sequential) interpolate_some ::
  "(string \<rightharpoonup> string) \<Rightarrow> string \<Rightarrow> string \<Rightarrow> nat \<Rightarrow> string \<Rightarrow> error + string" where
  "interpolate_some m opt sec depth [] =
     (if 10 < depth then Inl (InterpolationDepthError opt sec) else Inr [])"
| "interpolate_some m opt sec depth (c # rest) =
     (if 10 < depth then Inl (InterpolationDepthError opt sec)
      else if c \<noteq> CHR ''%'' then
        (case interpolate_some m opt sec depth rest of
           Inl e \<Rightarrow> Inl e
         | Inr out \<Rightarrow> Inr (c # out))
      else
        (case rest of
           [] \<Rightarrow> Inl (InterpolationSyntaxError opt sec)
         | d # r \<Rightarrow>
             if d = CHR ''%'' then
               (case interpolate_some m opt sec depth r of
                  Inl e \<Rightarrow> Inl e
                | Inr out \<Rightarrow> Inr (CHR ''%'' # out))
             else if d = CHR ''('' then
               (if key_name r = [] then Inl (InterpolationSyntaxError opt sec)
                else if take 2 (key_rest r) \<noteq> '')s'' then Inl (InterpolationSyntaxError opt sec)
                else
                  (case m (optionxform (key_name r)) of
                     None \<Rightarrow>
                       Inl (InterpolationMissingOptionError opt sec (optionxform (key_name r)))
                   | Some v \<Rightarrow>
                       (case (if CHR ''%'' \<in> set v
                              then interpolate_some m opt sec (Suc depth) v else Inr v) of
                          Inl e \<Rightarrow> Inl e
                        | Inr out1 \<Rightarrow>
                            (case interpolate_some m opt sec depth (drop 2 (key_rest r)) of
                               Inl e \<Rightarrow> Inl e
                             | Inr out2 \<Rightarrow> Inr (out1 @ out2)))))
             else Inl (InterpolationSyntaxError opt sec)))"
  by pat_completeness auto
termination
proof (relation "measures [\<lambda>(m, opt, sec, depth, rest). 11 - depth,
                            \<lambda>(m, opt, sec, depth, rest). length rest]", goal_cases)
  case 1
  show ?case by simp
next
  case (2 m opt sec depth c rest)
  then show ?case by simp
next
  case (3 m opt sec depth c rest d r)
  then show ?case by simp
next
  case (4 m opt sec depth c rest d r v)
  then have "10 - depth < 11 - depth" by simp
  then show ?case by simp
next
  case (5 m opt sec depth c rest d r v out1)
  have "length (key_rest r) \<le> length r"
    unfolding key_rest_def by (rule length_dropWhile_le)
  then have "length (drop 2 (key_rest r)) \<le> length r"
    by simp
  with 5 show ?case by simp
qed

definition before_get :: "(string \<rightharpoonup> string) \<Rightarrow> string \<Rightarrow> string \<Rightarrow> string \<Rightarrow> error + string" where
  "before_get opts sec opt v = interpolate_some opts opt sec 1 v"

text \<open>
  \<^verbatim>\<open>get\<close> raises when the section or the option is missing, and expands the value
  otherwise; \<^verbatim>\<open>set\<close> raises when the section is missing.
\<close>

definition config_get :: "config \<Rightarrow> string \<Rightarrow> string \<Rightarrow> error + string" where
  "config_get cfg sec opt =
     (case cfg sec of
        None \<Rightarrow> Inl (NoSectionError sec)
      | Some opts \<Rightarrow>
          (case opts opt of
             None \<Rightarrow> Inl (NoOptionError opt sec)
           | Some v \<Rightarrow> before_get opts sec opt v))"

definition config_set :: "config \<Rightarrow> string \<Rightarrow> string \<Rightarrow> string \<Rightarrow> error + config" where
  "config_set cfg sec opt v =
     (case cfg sec of
        None \<Rightarrow> Inl (NoSectionError sec)
      | Some opts \<Rightarrow> Inr (cfg(sec \<mapsto> opts(opt \<mapsto> v))))"

text \<open>
  The file system gives, for a path, nothing when no file can be opened there, and
  otherwise what parsing the file gives: its content, or a failure. \<^verbatim>\<open>cfg.read(paths)\<close>
  goes through the paths in order, skips those that cannot be opened (\<^verbatim>\<open>OSError\<close>),
  lets each file override the options read so far, and returns the list of the paths it
  read; the error of a file that opens and does not parse is not caught.
\<close>

type_synonym path = string

datatype file_content = Parsed config | Malformed

type_synonym filesystem = "path \<rightharpoonup> file_content"

definition is_file :: "filesystem \<Rightarrow> path \<Rightarrow> bool" where
  "is_file fs p = (fs p \<noteq> None)"

definition merge_config :: "config \<Rightarrow> config \<Rightarrow> config" where
  "merge_config cfg file =
     (\<lambda>sec. case file sec of
        None \<Rightarrow> cfg sec
      | Some opts \<Rightarrow> (case cfg sec of None \<Rightarrow> Some opts | Some old \<Rightarrow> Some (old ++ opts)))"

fun config_read :: "filesystem \<Rightarrow> config \<Rightarrow> path list \<Rightarrow> error + config \<times> path list" where
  "config_read fs cfg [] = Inr (cfg, [])"
| "config_read fs cfg (p # ps) =
     (case fs p of
        None \<Rightarrow> config_read fs cfg ps
      | Some Malformed \<Rightarrow> Inl (ParsingError p)
      | Some (Parsed file) \<Rightarrow>
          (case config_read fs (merge_config cfg file) ps of
             Inl e \<Rightarrow> Inl e
           | Inr (cfg', ok) \<Rightarrow> Inr (cfg', p # ok)))"

definition DEFAULT_CONFIG :: path where
  "DEFAULT_CONFIG = ''/usr/local/etc/kattisrc''"

text \<open>
  \<^verbatim>\<open>Kattis._read_config(paths)\<close>: the system-wide file first, when it is a file; then
  the given paths, and \<^verbatim>\<open>cli.ConfigError()\<close> when none of them was read; then the
  default of \<^verbatim>\<open>hostname\<close>. Nothing is caught.
\<close>

definition read_config :: "filesystem \<Rightarrow> path list \<Rightarrow> error + config" where
  "read_config fs paths =
     (case (if is_file fs DEFAULT_CONFIG
            then config_read fs Map.empty [DEFAULT_CONFIG] else Inr (Map.empty, [])) of
        Inl e \<Rightarrow> Inl e
      | Inr (cfg0, ok0) \<Rightarrow>
          (case config_read fs cfg0 paths of
             Inl e \<Rightarrow> Inl e
           | Inr (cfg, ok) \<Rightarrow>
               if ok = [] then Inl (ConfigError [])
               else if \<not> has_option cfg ''kattis'' ''hostname''
               then config_set cfg ''kattis'' ''hostname'' ''open.kattis.com''
               else Inr cfg))"

text \<open>
  \<^verbatim>\<open>get_cfg(option, default, section)\<close>; \<open>None\<close> is Python's \<^verbatim>\<open>None\<close>, the default of
  \<^verbatim>\<open>default\<close>.
\<close>

definition get_cfg :: "config \<Rightarrow> string \<Rightarrow> string option \<Rightarrow> string \<Rightarrow> error + string option" where
  "get_cfg cfg opt dflt sec =
     (if has_option cfg sec opt
      then (case config_get cfg sec opt of Inl e \<Rightarrow> Inl e | Inr v \<Rightarrow> Inr (Some v))
      else Inr dflt)"

text \<open>
  \<^verbatim>\<open>get_url(option, default, section, hostname)\<close>. The host name is read before the
  option is looked up. The default handed to \<^verbatim>\<open>get_cfg\<close> is a string, so the result is
  one.
\<close>

definition get_url :: "config \<Rightarrow> string \<Rightarrow> string \<Rightarrow> string \<Rightarrow> string option \<Rightarrow> error + string" where
  "get_url cfg opt dflt sec hostname =
     (case (case hostname of None \<Rightarrow> config_get cfg sec ''hostname'' | Some h \<Rightarrow> Inr h) of
        Inl e \<Rightarrow> Inl e
      | Inr h \<Rightarrow>
          (case get_cfg cfg opt (Some (''https://'' @ h @ ''/'' @ dflt)) sec of
             Inl e \<Rightarrow> Inl e
           | Inr None \<Rightarrow> Inr (''https://'' @ h @ ''/'' @ dflt)
           | Inr (Some u) \<Rightarrow> Inr u))"

definition username :: "config \<Rightarrow> error + string" where
  "username cfg = config_get cfg ''user'' ''username''"

definition password :: "config \<Rightarrow> error + string option" where
  "password cfg = get_cfg cfg ''password'' None ''user''"

definition token :: "config \<Rightarrow> error + string option" where
  "token cfg = get_cfg cfg ''token'' None ''user''"

definition login_url :: "config \<Rightarrow> error + string" where
  "login_url cfg = get_url cfg ''loginurl'' ''login'' ''kattis'' None"





section \<open>The Kattis session\<close>

text \<open>
  The state a \<^verbatim>\<open>Kattis\<close> object works on: its configuration; the attribute
  \<^verbatim>\<open>_cache\<close>, absent until the property \<^verbatim>\<open>cache\<close> is first read; the identity the
  next new request object will get; and the network log.
\<close>

record kattis =
  config :: config
  cache_attr :: "cache_dict option"
  next_id :: nat
  sent :: netlog

text \<open>
  \<^verbatim>\<open>Kattis.__init__(cfg_paths)\<close>: no argument stands for the default paths (they depend
  on the home directory and on where the script is, and are a parameter here), a single
  path for the list of that path.
\<close>

datatype cfg_paths_arg = No_paths | One_path path | Paths "path list"

definition Kattis_init :: "filesystem \<Rightarrow> path list \<Rightarrow> cfg_paths_arg \<Rightarrow> error + kattis" where
  "Kattis_init fs default_config_paths arg =
     (case read_config fs
             (case arg of No_paths \<Rightarrow> default_config_paths | One_path p \<Rightarrow> [p] | Paths ps \<Rightarrow> ps) of
        Inl e \<Rightarrow> Inl e
      | Inr cfg \<Rightarrow> Inr \<lparr>config = cfg, cache_attr = None, next_id = 0, sent = []\<rparr>)"

definition HEADERS :: pydict where
  "HEADERS = [(''User-Agent'', ''kattis-cli-submit'')]"

text \<open>The property \<^verbatim>\<open>cache\<close>: creates the \<^verbatim>\<open>RequestCache\<close> on first use.\<close>

definition cache_prop :: "kattis \<Rightarrow> cache_dict \<times> kattis" where
  "cache_prop k =
     (case cache_attr k of
        None \<Rightarrow> (RequestCache_init, k\<lparr>cache_attr := Some RequestCache_init\<rparr>)
      | Some c \<Rightarrow> (c, k))"

text \<open>
  The property \<^verbatim>\<open>login_request\<close>. Every read of it builds a new \<^verbatim>\<open>Request\<close> object,
  so it takes the next unused identity.
\<close>

definition login_request :: "kattis \<Rightarrow> (error + request) \<times> kattis" where
  "login_request k =
     (case password (config k) of Inl e \<Rightarrow> (Inl e, k) | Inr pw \<Rightarrow>
      case token (config k) of Inl e \<Rightarrow> (Inl e, k) | Inr tk \<Rightarrow>
      if pw = None \<and> tk = None
      then (Inl (ConfigError ''password and token both missing''), k)
      else
       (case username (config k) of Inl e \<Rightarrow> (Inl e, k) | Inr user \<Rightarrow>
        case login_url (config k) of Inl e \<Rightarrow> (Inl e, k) | Inr lurl \<Rightarrow>
          (Inr \<lparr>req_id = next_id k, http_method = ''post'', url = lurl, headers = HEADERS,
                data = [(''user'', user), (''script'', ''true'')]
                  @ (case pw of None \<Rightarrow> [] | Some p \<Rightarrow> [(''password'', p)])
                  @ (case tk of None \<Rightarrow> [] | Some t \<Rightarrow> [(''token'', t)]),
                params = [], cookies = []\<rparr>,
           k\<lparr>next_id := Suc (next_id k)\<rparr>)))"

text \<open>\<^verbatim>\<open>str\<close> of an integer, for the f-string of \<^verbatim>\<open>login\<close>.\<close>

fun str_nat :: "nat \<Rightarrow> string" where
  "str_nat n =
     (if n < 10 then [''0123456789'' ! n]
      else str_nat (n div 10) @ [''0123456789'' ! (n mod 10)])"

declare str_nat.simps [simp del]

definition str_int :: "int \<Rightarrow> string" where
  "str_int i = (if i < 0 then CHR ''-'' # str_nat (nat (- i)) else str_nat (nat i))"

text \<open>
  \<^verbatim>\<open>login(use_cached)\<close>: the arguments of \<^verbatim>\<open>self.cache.send(self.login_request,
  use_cached)\<close> are evaluated left to right (the cache, then the request), then the
  request is sent and the status of the answer classified.
\<close>

definition login :: "transport \<Rightarrow> bool \<Rightarrow> kattis \<Rightarrow> (error + response) \<times> kattis" where
  "login net use_cached k0 =
     (case cache_prop k0 of (c, k1) \<Rightarrow>
      case login_request k1 of
        (Inl e, k2) \<Rightarrow> (Inl e, k2)
      | (Inr req, k2) \<Rightarrow>
          (case RequestCache_send net req use_cached (c, sent k2) of
             (res, c', log') \<Rightarrow>
               (case res of
                  Inl e \<Rightarrow> (Inl e, k2\<lparr>cache_attr := Some c', sent := log'\<rparr>)
                | Inr resp \<Rightarrow>
                    (if status_code resp = 403 then
                       (case username (config k2) of
                          Inl e \<Rightarrow> Inl e
                        | Inr u \<Rightarrow> Inl (PyException (''403: bad credentials for '' @ u)))
                     else if status_code resp = 404 then
                       (case login_url (config k2) of
                          Inl e \<Rightarrow> Inl e
                        | Inr lu \<Rightarrow> Inl (PyException (''404: incorrect login URL '' @ lu)))
                     else if status_code resp \<noteq> 200 then
                       Inl (PyException (''login failed with status '' @ str_int (status_code resp)))
                     else Inr resp,
                     k2\<lparr>cache_attr := Some c', sent := log'\<rparr>))))"

text \<open>
  \<^verbatim>\<open>is_logged_in()\<close> is \<^verbatim>\<open>self.login_request in self.cache\<close>: the request is built
  first. \<^verbatim>\<open>logout()\<close> is \<^verbatim>\<open>self.cache.invalidate(self.login_request)\<close>: the cache is
  read first.
\<close>

definition is_logged_in :: "kattis \<Rightarrow> (error + bool) \<times> kattis" where
  "is_logged_in k0 =
     (case login_request k0 of
        (Inl e, k1) \<Rightarrow> (Inl e, k1)
      | (Inr req, k1) \<Rightarrow>
          (case cache_prop k1 of (c, k2) \<Rightarrow> (Inr (RequestCache_contains c req), k2)))"

definition logout :: "kattis \<Rightarrow> (error + unit) \<times> kattis" where
  "logout k0 =
     (case cache_prop k0 of (c, k1) \<Rightarrow>
      case login_request k1 of
        (Inl e, k2) \<Rightarrow> (Inl e, k2)
      | (Inr req, k2) \<Rightarrow> (Inr (), k2\<lparr>cache_attr := Some (RequestCache_invalidate c req)\<rparr>))"

text \<open>
  The properties \<^verbatim>\<open>login_response\<close> and \<^verbatim>\<open>cookies\<close> (the latter is \<open>Kattis_cookies\<close>
  here, \<open>cookies\<close> being the field of a request).
\<close>

definition login_response :: "transport \<Rightarrow> kattis \<Rightarrow> (error + response) \<times> kattis" where
  "login_response net k = login net True k"

definition Kattis_cookies :: "transport \<Rightarrow> kattis \<Rightarrow> (error + pydict) \<times> kattis" where
  "Kattis_cookies net k =
     (case login_response net k of
        (Inl e, k') \<Rightarrow> (Inl e, k')
      | (Inr resp, k') \<Rightarrow> (Inr (resp_cookies resp), k'))"

section \<open>Entities\<close>

text \<open>
  \<^verbatim>\<open>Contest\<close>, \<^verbatim>\<open>Submission\<close>, \<^verbatim>\<open>Problem\<close> and \<^verbatim>\<open>User\<close>: four classes of the same
  shape, an owning session and an identifier. An entity is its class, the identity of
  the session that owns it, and the identifier.
\<close>

datatype entity_class = Contest | Submission | Problem | User

record entity =
  cls :: entity_class
  owner :: nat
  ident :: string

definition str :: "entity \<Rightarrow> string" where
  "str e = ident e"

definition isinstance :: "entity \<Rightarrow> entity_class \<Rightarrow> bool" where
  "isinstance e c = (cls e = c)"

text \<open>
  The methods of the four classes. \<open>string_hash\<close> is Python's hash of a string; strings
  are ordered as Python orders them, lexicographically by character.
\<close>

definition Contest_hash :: "(string \<Rightarrow> int) \<Rightarrow> entity \<Rightarrow> int" where
  "Contest_hash string_hash self = string_hash (str self)"

definition Contest_eq :: "entity \<Rightarrow> entity \<Rightarrow> bool" where
  "Contest_eq self other = (isinstance other Contest \<and> str self = str other)"

definition Contest_lt :: "entity \<Rightarrow> entity \<Rightarrow> error + bool" where
  "Contest_lt self other =
     (if \<not> isinstance other Contest then Inl TypeError else Inr (str self < str other))"

definition Submission_hash :: "(string \<Rightarrow> int) \<Rightarrow> entity \<Rightarrow> int" where
  "Submission_hash string_hash self = string_hash (str self)"

definition Submission_eq :: "entity \<Rightarrow> entity \<Rightarrow> bool" where
  "Submission_eq self other = (isinstance other Submission \<and> str self = str other)"

definition Submission_lt :: "entity \<Rightarrow> entity \<Rightarrow> error + bool" where
  "Submission_lt self other =
     (if \<not> isinstance other Submission then Inl TypeError else Inr (str self < str other))"

definition Problem_hash :: "(string \<Rightarrow> int) \<Rightarrow> entity \<Rightarrow> int" where
  "Problem_hash string_hash self = string_hash (str self)"

definition Problem_eq :: "entity \<Rightarrow> entity \<Rightarrow> bool" where
  "Problem_eq self other = (isinstance other Problem \<and> str self = str other)"

definition Problem_lt :: "entity \<Rightarrow> entity \<Rightarrow> error + bool" where
  "Problem_lt self other =
     (if \<not> isinstance other Problem then Inl TypeError else Inr (str self < str other))"

definition User_hash :: "(string \<Rightarrow> int) \<Rightarrow> entity \<Rightarrow> int" where
  "User_hash string_hash self = string_hash (str self)"

definition User_eq :: "entity \<Rightarrow> entity \<Rightarrow> bool" where
  "User_eq self other = (isinstance other User \<and> str self = str other)"

definition User_lt :: "entity \<Rightarrow> entity \<Rightarrow> error + bool" where
  "User_lt self other =
     (if \<not> isinstance other User then Inl TypeError else Inr (str self < str other))"

text \<open>
  \<^verbatim>\<open>hash(a)\<close>, \<^verbatim>\<open>a == b\<close> and \<^verbatim>\<open>a < b\<close> call the method of the class of \<open>a\<close>.
\<close>

definition py_hash :: "(string \<Rightarrow> int) \<Rightarrow> entity \<Rightarrow> int" where
  "py_hash string_hash a =
     (case cls a of
        Contest \<Rightarrow> Contest_hash string_hash a
      | Submission \<Rightarrow> Submission_hash string_hash a
      | Problem \<Rightarrow> Problem_hash string_hash a
      | User \<Rightarrow> User_hash string_hash a)"

definition py_eq :: "entity \<Rightarrow> entity \<Rightarrow> bool" where
  "py_eq a b =
     (case cls a of
        Contest \<Rightarrow> Contest_eq a b
      | Submission \<Rightarrow> Submission_eq a b
      | Problem \<Rightarrow> Problem_eq a b
      | User \<Rightarrow> User_eq a b)"

definition py_lt :: "entity \<Rightarrow> entity \<Rightarrow> error + bool" where
  "py_lt a b =
     (case cls a of
        Contest \<Rightarrow> Contest_lt a b
      | Submission \<Rightarrow> Submission_lt a b
      | Problem \<Rightarrow> Problem_lt a b
      | User \<Rightarrow> User_lt a b)"

section \<open>Reachable sessions\<close>

text \<open>
  Object identities are handed out in increasing order, so in a session built by
  \<open>Kattis_init\<close> and used through its methods every key of the cache is the identity of
  a request that was built before: it is below \<open>next_id\<close>.
\<close>

definition fresh_ids :: "kattis \<Rightarrow> bool" where
  "fresh_ids k = (case cache_attr k of None \<Rightarrow> True | Some c \<Rightarrow> dom c \<subseteq> {..<next_id k})"

section \<open>Sample data\<close>

text \<open>
  The request that \<^verbatim>\<open>Kattis.get\<close> builds for the problem list of an
  anonymous session, as object number \<open>i\<close>; a transport that answers every call with
  status 200; a transport whose first call succeeds and whose later calls fail.
\<close>

definition problems_request :: "nat \<Rightarrow> request" where
  "problems_request i =
     \<lparr>req_id = i, http_method = ''get'', url = ''https://open.kattis.com/problems'',
      headers = [(''User-Agent'', ''kattis-cli-submit'')], data = [], params = [], cookies = []\<rparr>"

definition net_ok :: transport where
  "net_ok n r = Inr (200, [])"

definition net_flaky :: transport where
  "net_flaky n r = (if n = 0 then Inr (200, []) else Inl (TransportError ''connection refused''))"

definition first_response :: response where
  "first_response = \<lparr>resp_id = 0, status_code = 200, resp_cookies = []\<rparr>"

text \<open>A transport that answers every call with the given status.\<close>

definition net_status :: "int \<Rightarrow> transport" where
  "net_status st n r = Inr (st, [])"

text \<open>
  The configuration file of a user with a token, the file system that holds it, and the
  session \<^verbatim>\<open>Kattis(Path('/home/alice/.kattisrc'))\<close> built from it; the request its
  first \<^verbatim>\<open>login_request\<close> builds.
\<close>

definition alice_file :: config where
  "alice_file = [''user'' \<mapsto> [''username'' \<mapsto> ''alice'', ''token'' \<mapsto> ''t0k3n''],
                 ''kattis'' \<mapsto> [''hostname'' \<mapsto> ''open.kattis.com'']]"

definition alice_fs :: filesystem where
  "alice_fs = [''/home/alice/.kattisrc'' \<mapsto> Parsed alice_file]"

definition alice :: kattis where
  "alice = \<lparr>config = alice_file, cache_attr = None, next_id = 0, sent = []\<rparr>"

definition alice_login_request :: request where
  "alice_login_request =
     \<lparr>req_id = 0, http_method = ''post'', url = ''https://open.kattis.com/login'',
      headers = [(''User-Agent'', ''kattis-cli-submit'')],
      data = [(''user'', ''alice''), (''script'', ''true''), (''token'', ''t0k3n'')],
      params = [], cookies = []\<rparr>"

text \<open>A session whose configuration has a user name and neither password nor token.\<close>

definition bob :: kattis where
  "bob = \<lparr>config = [''user'' \<mapsto> [''username'' \<mapsto> ''bob''],
                      ''kattis'' \<mapsto> [''hostname'' \<mapsto> ''open.kattis.com'']],
          cache_attr = None, next_id = 0, sent = []\<rparr>"

text \<open>
  A file system with the system-wide file only; one with a user file that opens and does
  not parse; a configuration with nothing but the host name; one that overrides the
  login URL; one whose login URL has a percent sign.
\<close>

definition default_only_fs :: filesystem where
  "default_only_fs = [DEFAULT_CONFIG \<mapsto> Parsed alice_file]"

definition malformed_fs :: filesystem where
  "malformed_fs = [''/home/alice/.kattisrc'' \<mapsto> Malformed]"




section \<open>Properties of the caches\<close>

lemma RequestCache_send_hit:
  "c (req_id r) = Some resp \<Longrightarrow> RequestCache_send net r True (c, log) = (Inr resp, c, log)"
  by (simp add: RequestCache_send_def RequestCache_contains_def dict_get_def)

lemma RequestCache_send_fetch:
  "\<not> (u \<and> RequestCache_contains c r) \<Longrightarrow> net (length log) r = Inr (st, ck) \<Longrightarrow>
   RequestCache_send net r u (c, log) =
     (Inr \<lparr>resp_id = length log, status_code = st, resp_cookies = ck\<rparr>,
      c(req_id r \<mapsto> \<lparr>resp_id = length log, status_code = st, resp_cookies = ck\<rparr>), log @ [r])"
  by (simp add: RequestCache_send_def session_send_def dict_get_def)

lemma RequestCache_send_raise:
  "\<not> (u \<and> RequestCache_contains c r) \<Longrightarrow> net (length log) r = Inl e \<Longrightarrow>
   RequestCache_send net r u (c, log) = (Inl e, c, log @ [r])"
  by (simp add: RequestCache_send_def session_send_def)

lemma step_eq: "ResponseCache_step net x s = RequestCache_step net x s"
  by (cases x; cases s)
     (simp_all add: ResponseCache_contains_def RequestCache_contains_def
        ResponseCache_invalidate_def RequestCache_invalidate_def
        ResponseCache_send_def RequestCache_send_def)

text \<open>
  C9. \<^verbatim>\<open>RequestCache\<close> of \<^verbatim>\<open>kattis.py\<close> and \<^verbatim>\<open>ResponseCache\<close> of
  \<^verbatim>\<open>response_cache.py\<close> are behaviourally equivalent: from empty caches and with the
  same transport, every sequence of contains, invalidate and send operations gives the
  same list of results, the same final dictionary and the same network log.
\<close>

theorem caches_equivalent:
  "run (ResponseCache_step net) ops (ResponseCache_init, []) =
   run (RequestCache_step net) ops (RequestCache_init, [])"
proof -
  have "run (ResponseCache_step net) ops s = run (RequestCache_step net) ops s" for s
    by (induction ops arbitrary: s) (simp_all add: step_eq)
  then show ?thesis
    by (simp add: ResponseCache_init_def RequestCache_init_def)
qed

lemma send_twice_same_object:
  "net 0 r = Inr (st, ck) \<Longrightarrow>
   send_twice net r r =
     (Inr \<lparr>resp_id = 0, status_code = st, resp_cookies = ck\<rparr>,
      Inr \<lparr>resp_id = 0, status_code = st, resp_cookies = ck\<rparr>, 1)"
  by (simp add: send_twice_def RequestCache_send_def RequestCache_init_def
        RequestCache_contains_def session_send_def dict_get_def)

text \<open>
  C1. Cache identity asks that two requests with equal method, URL, headers, body,
  query parameters and cookies share one cache entry: one network call, the same
  response object twice. The dictionary is keyed by the request objects, which compare
  by identity: two distinct request objects with equal fields give two network calls
  and two different response objects.
\<close>

theorem cache_identity_two_objects:
  "same_fields (problems_request 0) (problems_request 1) \<and>
   send_twice net_ok (problems_request 0) (problems_request 1) =
     (Inr \<lparr>resp_id = 0, status_code = 200, resp_cookies = []\<rparr>,
      Inr \<lparr>resp_id = 1, status_code = 200, resp_cookies = []\<rparr>, 2)"
  by (simp add: same_fields_def problems_request_def send_twice_def net_ok_def
        RequestCache_send_def RequestCache_init_def RequestCache_contains_def
        session_send_def dict_get_def)

text \<open>
  C4, as stated, fails where the request already had an entry and the failing call
  bypassed the cache: the entry survives the failure (the dictionary is untouched), so
  the next cached send answers from it and makes no network call.
\<close>

theorem failed_bypass_keeps_entry_counterexample:
  "RequestCache_send net_flaky (problems_request 0) False
     ([0 \<mapsto> first_response], [problems_request 0]) =
     (Inl (TransportError ''connection refused''), [0 \<mapsto> first_response],
      [problems_request 0, problems_request 0]) \<and>
   RequestCache_send net_flaky (problems_request 0) True
     ([0 \<mapsto> first_response], [problems_request 0, problems_request 0]) =
     (Inr first_response, [0 \<mapsto> first_response],
      [problems_request 0, problems_request 0])"
  by (simp add: problems_request_def net_flaky_def first_response_def
        RequestCache_send_def RequestCache_contains_def session_send_def dict_get_def)

text \<open>
  C4, amended. If the transport raises \<open>e\<close> during \<^verbatim>\<open>send(r, use_cached)\<close> (the call
  reaches the transport: the cache is bypassed or has no entry for \<open>r\<close>), then \<open>e\<close> is
  what the caller gets, and the dictionary is exactly what it was. The next
  \<^verbatim>\<open>send(r, use_cached=True)\<close> makes a new network call when \<open>r\<close> had no entry, and
  answers from the entry \<open>r\<close> already had, with no network call, when it had one.
\<close>

theorem failed_send_leaves_cache:
  assumes "\<not> (use_cached \<and> RequestCache_contains c r)"
    and "net (length log) r = Inl e"
  shows "RequestCache_send net r use_cached (c, log) = (Inl e, c, log @ [r]) \<and>
         snd (snd (RequestCache_send net r True (c, log @ [r]))) =
           (if RequestCache_contains c r then log @ [r] else log @ [r, r]) \<and>
         (if RequestCache_contains c r
          then fst (RequestCache_send net r True (c, log @ [r])) = dict_get c r
          else True)"
proof -
  have first: "RequestCache_send net r use_cached (c, log) = (Inl e, c, log @ [r])"
    using assms by (rule RequestCache_send_raise)
  have second: "snd (snd (RequestCache_send net r True (c, log @ [r]))) =
      (if RequestCache_contains c r then log @ [r] else log @ [r, r])"
    by (simp add: RequestCache_send_def session_send_def split: sum.splits prod.splits)
  have third: "RequestCache_contains c r \<Longrightarrow>
      fst (RequestCache_send net r True (c, log @ [r])) = dict_get c r"
    by (simp add: RequestCache_send_def)
  from first second third show ?thesis by simp
qed

theorem failed_send_leaves_cache_witness:
  "RequestCache_send net_flaky (problems_request 1) True (Map.empty, [problems_request 0]) =
     (Inl (TransportError ''connection refused''), Map.empty,
      [problems_request 0, problems_request 1]) \<and>
   snd (snd (RequestCache_send net_flaky (problems_request 1) True
     (Map.empty, [problems_request 0, problems_request 1]))) =
     [problems_request 0, problems_request 1, problems_request 1]"
proof -
  have a: "\<not> (True \<and> RequestCache_contains Map.empty (problems_request 1))"
    by (simp add: RequestCache_contains_def)
  have b: "net_flaky (length [problems_request 0]) (problems_request 1) =
      Inl (TransportError ''connection refused'')"
    by (simp add: net_flaky_def)
  show ?thesis
    using failed_send_leaves_cache
      [of True Map.empty "problems_request 1" net_flaky "[problems_request 0]"
          "TransportError ''connection refused''", OF a b]
    by (simp add: RequestCache_contains_def)
qed

section \<open>Properties of the configuration and the URLs\<close>

lemmas cfg_defs = has_option_def config_get_def before_get_def get_cfg_def get_url_def
  username_def password_def token_def login_url_def

lemma merge_config_empty: "merge_config Map.empty file = file"
  by (rule ext) (simp add: merge_config_def split: option.splits)



text \<open>
  \<^verbatim>\<open>cfg.read(paths)\<close> on paths that cannot be opened reads nothing; on paths of which
  one opens and does not parse it raises the error of such a path.
\<close>

lemma config_read_none:
  "\<forall>p\<in>set paths. fs p = None \<Longrightarrow> config_read fs cfg paths = Inr (cfg, [])"
  by (induction paths arbitrary: cfg) simp_all

lemma config_read_malformed:
  "\<exists>p\<in>set paths. fs p = Some Malformed \<Longrightarrow>
   \<exists>q\<in>set paths. fs q = Some Malformed \<and> config_read fs cfg paths = Inl (ParsingError q)"
proof (induction paths arbitrary: cfg)
  case Nil
  then show ?case by simp
next
  case (Cons p ps)
  show ?case
  proof (cases "fs p")
    case None
    with Cons.prems have "\<exists>p\<in>set ps. fs p = Some Malformed" by auto
    from Cons.IH [OF this, of cfg] None show ?thesis by auto
  next
    case (Some content)
    show ?thesis
    proof (cases content)
      case Malformed
      with Some show ?thesis by simp
    next
      case (Parsed parsed)
      with Some Cons.prems have "\<exists>p\<in>set ps. fs p = Some Malformed" by auto
      from Cons.IH [OF this, of "merge_config cfg parsed"] Some Parsed show ?thesis by auto
    qed
  qed
qed

lemma default_config_read:
  "fs DEFAULT_CONFIG \<noteq> Some Malformed \<Longrightarrow>
   \<exists>cfg0 ok0. (if is_file fs DEFAULT_CONFIG
      then config_read fs Map.empty [DEFAULT_CONFIG] else Inr (Map.empty, [])) = Inr (cfg0, ok0)"
  by (cases "fs DEFAULT_CONFIG") (auto simp: is_file_def split: file_content.splits)

text \<open>
  C5, as stated, fails for a path that is not read because the file there opens and
  does not parse: loading raises the error of the parser, not \<^verbatim>\<open>ConfigError\<close>.
\<close>

theorem read_config_malformed_counterexample:
  "read_config malformed_fs [''/home/alice/.kattisrc''] =
     Inl (ParsingError ''/home/alice/.kattisrc'') \<and>
   exc_type (ParsingError ''/home/alice/.kattisrc'') = ParsingError_class \<and>
   exc_type (ConfigError []) = ConfigError_class"
  by (simp add: read_config_def is_file_def malformed_fs_def DEFAULT_CONFIG_def)

text \<open>
  C5, amended. If none of the paths handed to configuration loading can be opened, and
  the system-wide file is not one that opens and does not parse, loading raises
  \<^verbatim>\<open>ConfigError\<close>, also when the system-wide file was read; so does the constructor
  called with these paths. If the system-wide file opens and does not parse, loading
  raises the parser's error for it; otherwise, if one of the paths opens and does not
  parse, loading raises the parser's error for such a path.
\<close>

theorem read_config_no_user_file:
  "(fs DEFAULT_CONFIG \<noteq> Some Malformed \<and> (\<forall>p\<in>set paths. fs p = None) \<longrightarrow>
      read_config fs paths = Inl (ConfigError []) \<and>
      Kattis_init fs default_config_paths (Paths paths) = Inl (ConfigError [])) \<and>
   (fs DEFAULT_CONFIG = Some Malformed \<longrightarrow>
      read_config fs paths = Inl (ParsingError DEFAULT_CONFIG)) \<and>
   (fs DEFAULT_CONFIG \<noteq> Some Malformed \<and> (\<exists>p\<in>set paths. fs p = Some Malformed) \<longrightarrow>
      (\<exists>q\<in>set paths. fs q = Some Malformed \<and> read_config fs paths = Inl (ParsingError q)))"
proof (intro conjI impI)
  assume a: "fs DEFAULT_CONFIG \<noteq> Some Malformed \<and> (\<forall>p\<in>set paths. fs p = None)"
  then obtain cfg0 ok0 where "(if is_file fs DEFAULT_CONFIG
      then config_read fs Map.empty [DEFAULT_CONFIG] else Inr (Map.empty, [])) = Inr (cfg0, ok0)"
    using default_config_read by blast
  with a show r: "read_config fs paths = Inl (ConfigError [])"
    by (simp add: read_config_def config_read_none)
  then show "Kattis_init fs default_config_paths (Paths paths) = Inl (ConfigError [])"
    by (simp add: Kattis_init_def)
next
  assume "fs DEFAULT_CONFIG = Some Malformed"
  then show "read_config fs paths = Inl (ParsingError DEFAULT_CONFIG)"
    by (simp add: read_config_def is_file_def)
next
  assume a: "fs DEFAULT_CONFIG \<noteq> Some Malformed \<and> (\<exists>p\<in>set paths. fs p = Some Malformed)"
  then obtain cfg0 ok0 where d: "(if is_file fs DEFAULT_CONFIG
      then config_read fs Map.empty [DEFAULT_CONFIG] else Inr (Map.empty, [])) = Inr (cfg0, ok0)"
    using default_config_read by blast
  from a config_read_malformed [of paths fs cfg0] obtain q
    where "q \<in> set paths" "fs q = Some Malformed"
      "config_read fs cfg0 paths = Inl (ParsingError q)" by blast
  with d show "\<exists>q\<in>set paths. fs q = Some Malformed \<and> read_config fs paths = Inl (ParsingError q)"
    by (auto simp: read_config_def)
qed

theorem read_config_no_user_file_witness:
  "is_file default_only_fs DEFAULT_CONFIG \<and>
   read_config default_only_fs [''/home/alice/.kattisrc''] = Inl (ConfigError []) \<and>
   Kattis_init default_only_fs [] (Paths [''/home/alice/.kattisrc'']) = Inl (ConfigError [])"
proof -
  have "default_only_fs DEFAULT_CONFIG \<noteq> Some Malformed \<and>
      (\<forall>p\<in>set [''/home/alice/.kattisrc'']. default_only_fs p = None)"
    by (simp add: default_only_fs_def DEFAULT_CONFIG_def)
  then show ?thesis
    using read_config_no_user_file [of default_only_fs "[''/home/alice/.kattisrc'']" "[]"]
    by (simp add: is_file_def default_only_fs_def)
qed

text \<open>
  A configuration that was loaded has a host name in the section \<^verbatim>\<open>kattis\<close>, the
  section every URL method reads.
\<close>

lemma read_config_hostname:
  assumes "read_config fs paths = Inr cfg"
  shows "\<exists>opts h. cfg ''kattis'' = Some opts \<and> opts ''hostname'' = Some h"
  using assms
  by (auto simp: read_config_def has_option_def config_set_def
      split: sum.splits prod.splits if_splits option.splits)




section \<open>Properties of the entities\<close>

text \<open>
  C8. Equality, hash and order of entities depend on the class and the identifier only,
  never on the owning session: two entities are equal when they are of one class and
  have one identifier; the hash is the hash of the identifier; \<open><\<close> within a class is
  the order of the identifiers and across classes raises \<^verbatim>\<open>TypeError\<close>. So
  \<^verbatim>\<open>Problem("a") < Problem("b")\<close> holds, \<^verbatim>\<open>Problem("a") == User("a")\<close> is false and
  \<^verbatim>\<open>Problem("a") < User("b")\<close> raises \<^verbatim>\<open>TypeError\<close>.
\<close>

theorem entity_comparison:
  "py_eq a b = (cls a = cls b \<and> ident a = ident b) \<and>
   py_lt a b = (if cls a = cls b then Inr (ident a < ident b) else Inl TypeError) \<and>
   py_hash h a = h (ident a) \<and>
   py_lt \<lparr>cls = Problem, owner = k, ident = ''a''\<rparr> \<lparr>cls = Problem, owner = k, ident = ''b''\<rparr>
     = Inr True \<and>
   py_eq \<lparr>cls = Problem, owner = k, ident = ''a''\<rparr> \<lparr>cls = User, owner = k, ident = ''a''\<rparr>
     = False \<and>
   py_lt \<lparr>cls = Problem, owner = k, ident = ''a''\<rparr> \<lparr>cls = User, owner = k, ident = ''b''\<rparr>
     = Inl TypeError"
  by (cases "cls a")
     (auto simp: py_eq_def py_lt_def py_hash_def isinstance_def str_def
        Contest_eq_def Contest_lt_def Contest_hash_def Submission_eq_def Submission_lt_def
        Submission_hash_def Problem_eq_def Problem_lt_def Problem_hash_def
        User_eq_def User_lt_def User_hash_def)

section \<open>Properties of the session\<close>

lemmas session_defs = login_def login_request_def cache_prop_def is_logged_in_def logout_def
  Kattis_cookies_def login_response_def RequestCache_send_def RequestCache_contains_def
  RequestCache_init_def RequestCache_invalidate_def session_send_def dict_get_def HEADERS_def

lemma alice_reachable:
  "Kattis_init alice_fs default_config_paths (One_path ''/home/alice/.kattisrc'') = Inr alice"
  by (simp add: Kattis_init_def read_config_def is_file_def alice_fs_def DEFAULT_CONFIG_def
      merge_config_empty alice_def has_option_def alice_file_def)

text \<open>
  C6. With neither password nor token configured, building the login request raises
  \<^verbatim>\<open>ConfigError\<close>, and so does \<^verbatim>\<open>login\<close>, with the network log as it was: no call
  reaches the transport.
\<close>

theorem login_request_missing_credentials:
  assumes "\<not> has_option (config k) ''user'' ''password''"
    and "\<not> has_option (config k) ''user'' ''token''"
  shows "fst (login_request k) = Inl (ConfigError ''password and token both missing'') \<and>
         fst (login net use_cached k) = Inl (ConfigError ''password and token both missing'') \<and>
         sent (snd (login net use_cached k)) = sent k"
  using assms
  by (simp add: login_def login_request_def cache_prop_def password_def token_def get_cfg_def
      split: option.splits)

theorem login_request_missing_credentials_witness:
  "fst (login_request bob) = Inl (ConfigError ''password and token both missing'') \<and>
   fst (login net_ok True bob) = Inl (ConfigError ''password and token both missing'') \<and>
   sent (snd (login net_ok True bob)) = []"
proof -
  have a: "\<not> has_option (config bob) ''user'' ''password''"
    by (simp add: bob_def has_option_def)
  have b: "\<not> has_option (config bob) ''user'' ''token''"
    by (simp add: bob_def has_option_def)
  have "sent bob = []" by (simp add: bob_def)
  then show ?thesis
    using login_request_missing_credentials [of bob net_ok True, OF a b] by simp
qed

text \<open>
  C10. With neither password nor token configured, \<^verbatim>\<open>logout()\<close> raises
  \<^verbatim>\<open>ConfigError\<close>: it builds the login request in order to invalidate it.
\<close>

theorem logout_missing_credentials:
  assumes "\<not> has_option (config k) ''user'' ''password''"
    and "\<not> has_option (config k) ''user'' ''token''"
  shows "fst (logout k) = Inl (ConfigError ''password and token both missing'')"
  using assms
  by (simp add: logout_def login_request_def cache_prop_def password_def token_def get_cfg_def
      split: option.splits)

theorem logout_missing_credentials_witness:
  "fst (logout bob) = Inl (ConfigError ''password and token both missing'')"
proof -
  have a: "\<not> has_option (config bob) ''user'' ''password''"
    by (simp add: bob_def has_option_def)
  have b: "\<not> has_option (config bob) ''user'' ''token''"
    by (simp add: bob_def has_option_def)
  show ?thesis
    using logout_missing_credentials [OF a b] .
qed

subsection \<open>Every login request is a new object\<close>

lemma login_request_fresh:
  "login_request k = (Inr req, k') \<Longrightarrow>
     req_id req = next_id k \<and> k' = k\<lparr>next_id := Suc (next_id k)\<rparr>"
  by (auto simp: login_request_def split: sum.splits if_splits)

lemma login_request_raise:
  "login_request k = (Inl e, k') \<Longrightarrow> k' = k"
  by (auto simp: login_request_def split: sum.splits if_splits)

lemma cache_prop_fresh:
  "fresh_ids k \<Longrightarrow> dom (fst (cache_prop k)) \<subseteq> {..<next_id k}"
  by (auto simp: fresh_ids_def cache_prop_def RequestCache_init_def split: option.splits)

lemma cache_prop_fields:
  "config (snd (cache_prop k)) = config k \<and> next_id (snd (cache_prop k)) = next_id k \<and>
   sent (snd (cache_prop k)) = sent k \<and> cache_attr (snd (cache_prop k)) = Some (fst (cache_prop k))"
  by (simp add: cache_prop_def split: option.splits)

lemma RequestCache_send_dom:
  "dom (fst (snd (RequestCache_send net r u (c, log)))) \<subseteq> insert (req_id r) (dom c)"
  by (auto simp: RequestCache_send_def session_send_def split: sum.splits prod.splits if_splits)

lemma login_state:
  "snd (login net u k) =
     (case login_request (snd (cache_prop k)) of
        (Inl e, k2) \<Rightarrow> k2
      | (Inr req, k2) \<Rightarrow>
          k2\<lparr>cache_attr := Some (fst (snd (RequestCache_send net req u (fst (cache_prop k), sent k2)))),
             sent := snd (snd (RequestCache_send net req u (fst (cache_prop k), sent k2)))\<rparr>)"
  by (simp add: login_def case_prod_beta split: sum.splits)

text \<open>The sessions that the constructor builds and the methods lead to satisfy \<open>fresh_ids\<close>.\<close>

lemma Kattis_init_fresh: "Kattis_init fs dps arg = Inr k \<Longrightarrow> fresh_ids k"
  by (auto simp: Kattis_init_def fresh_ids_def split: sum.splits)

lemma login_fresh:
  assumes "fresh_ids k"
  shows "fresh_ids (snd (login net u k))"
proof (cases "login_request (snd (cache_prop k))")
  case (Pair res k2)
  show ?thesis
  proof (cases res)
    case (Inl e)
    with Pair have "k2 = snd (cache_prop k)" using login_request_raise by blast
    with Pair Inl assms cache_prop_fresh [OF assms] show ?thesis
      by (simp add: login_state fresh_ids_def cache_prop_fields)
  next
    case (Inr req)
    with Pair have r: "req_id req = next_id k"
      and k2: "k2 = (snd (cache_prop k))\<lparr>next_id := Suc (next_id k)\<rparr>"
      using login_request_fresh [of "snd (cache_prop k)" req k2] by (simp_all add: cache_prop_fields)
    have "dom (fst (snd (RequestCache_send net req u (fst (cache_prop k), sent k2))))
        \<subseteq> insert (next_id k) {..<next_id k}"
      using RequestCache_send_dom [of net req u "fst (cache_prop k)" "sent k2"]
        cache_prop_fresh [OF assms] r by auto
    then show ?thesis
      using Pair Inr k2 by (auto simp: login_state fresh_ids_def)
  qed
qed

lemma Kattis_cookies_fresh:
  assumes "fresh_ids k"
  shows "fresh_ids (snd (Kattis_cookies net k))"
proof -
  have "snd (Kattis_cookies net k) = snd (login net True k)"
    by (simp add: Kattis_cookies_def login_response_def split: prod.splits sum.splits)
  then show ?thesis using login_fresh [OF assms] by simp
qed

lemma logout_fresh:
  assumes "fresh_ids k"
  shows "fresh_ids (snd (logout k))"
  using assms
  by (auto simp: fresh_ids_def logout_def cache_prop_def login_request_def
      RequestCache_init_def RequestCache_invalidate_def
      split: option.splits sum.splits prod.splits if_splits)

lemma is_logged_in_fresh:
  assumes "fresh_ids k"
  shows "fresh_ids (snd (is_logged_in k))"
  using assms
  by (auto simp: fresh_ids_def is_logged_in_def cache_prop_def login_request_def
      RequestCache_init_def
      split: option.splits sum.splits prod.splits if_splits)

text \<open>
  In such a session \<^verbatim>\<open>is_logged_in()\<close> never answers \<^verbatim>\<open>True\<close>: the request it looks up
  is a new object, and no key of the cache is that object.
\<close>

lemma is_logged_in_never_True:
  assumes "fresh_ids k"
  shows "fst (is_logged_in k) \<noteq> Inr True"
proof (cases "login_request k")
  case (Pair res k')
  show ?thesis
  proof (cases res)
    case (Inl e)
    with Pair show ?thesis by (simp add: is_logged_in_def)
  next
    case (Inr req)
    with Pair have "req_id req = next_id k" and k': "k' = k\<lparr>next_id := Suc (next_id k)\<rparr>"
      using login_request_fresh by blast+
    moreover have "fst (cache_prop k') (next_id k) = None"
      using assms
      by (auto simp: k' fresh_ids_def cache_prop_def RequestCache_init_def split: option.splits)
    ultimately show ?thesis
      using Pair Inr by (simp add: is_logged_in_def RequestCache_contains_def case_prod_beta)
  qed
qed

subsection \<open>Classification of the login status\<close>

text \<open>
  C3, as stated, fails on the error types: the three failures of \<^verbatim>\<open>login\<close> are all
  raised as the builtin \<^verbatim>\<open>Exception\<close>, so the answers to status 403, 404 and 500 are
  errors of one and the same class, which differ in their message only.
\<close>

theorem login_errors_one_class_counterexample:
  "fst (login (net_status 403) True alice) = Inl (PyException ''403: bad credentials for alice'') \<and>
   fst (login (net_status 404) True alice) =
     Inl (PyException ''404: incorrect login URL https://open.kattis.com/login'') \<and>
   fst (login (net_status 500) True alice) = Inl (PyException ''login failed with status 500'') \<and>
   exc_type (PyException ''403: bad credentials for alice'') =
     exc_type (PyException ''login failed with status 500'') \<and>
   exc_type (PyException ''404: incorrect login URL https://open.kattis.com/login'') =
     exc_type (PyException ''login failed with status 500'')"
proof -
  have "fst (login (net_status 403) True alice) =
      Inl (PyException ''403: bad credentials for alice'')"
    by (simp add: alice_def alice_file_def net_status_def cfg_defs session_defs)
  moreover have "fst (login (net_status 404) True alice) =
      Inl (PyException ''404: incorrect login URL https://open.kattis.com/login'')"
    by (simp add: alice_def alice_file_def net_status_def cfg_defs session_defs)
  moreover have "fst (login (net_status 500) True alice) =
      Inl (PyException ''login failed with status 500'')"
    by (simp add: alice_def alice_file_def net_status_def cfg_defs session_defs
        str_int_def str_nat.simps)
  ultimately show ?thesis by simp
qed

text \<open>
  C3, amended. In a session whose login request \<open>req\<close> can be built, when the transport
  answers the login with status \<open>st\<close>: 403 raises \<^verbatim>\<open>Exception\<close> with a message naming
  the configured user; 404 raises \<^verbatim>\<open>Exception\<close> with a message naming the login URL;
  any other status but 200 raises \<^verbatim>\<open>Exception\<close> with a message carrying the status
  code; 200 returns the response. The failures are told apart by the message, not by
  the type.
\<close>

theorem login_classifies_status:
  assumes "fresh_ids k"
    and "fst (login_request k) = Inr req"
    and "username (config k) = Inr user"
    and "net (length (sent k)) req = Inr (st, ck)"
  shows "fst (login net use_cached k) =
     (if st = 403 then Inl (PyException (''403: bad credentials for '' @ user))
      else if st = 404 then Inl (PyException (''404: incorrect login URL '' @ url req))
      else if st \<noteq> 200 then Inl (PyException (''login failed with status '' @ str_int st))
      else Inr \<lparr>resp_id = length (sent k), status_code = st, resp_cookies = ck\<rparr>)"
proof -
  obtain c k1 where cp: "cache_prop k = (c, k1)" by (cases "cache_prop k")
  have k1: "config k1 = config k" "next_id k1 = next_id k" "sent k1 = sent k"
    using cp by (auto simp: cache_prop_def split: option.splits)
  have cfree: "c (next_id k) = None"
    using assms(1) cp
    by (auto simp: fresh_ids_def cache_prop_def RequestCache_init_def split: option.splits)
  have lr: "login_request k1 =
        (Inr (req\<lparr>req_id := next_id k\<rparr>), k1\<lparr>next_id := Suc (next_id k)\<rparr>)
      \<and> req_id req = next_id k \<and> login_url (config k) = Inr (url req)"
    using assms(2) k1
    by (auto simp: login_request_def split: sum.splits if_splits)
  then have req: "req\<lparr>req_id := next_id k\<rparr> = req" by simp
  have send: "RequestCache_send net req use_cached (c, sent k) =
      (Inr \<lparr>resp_id = length (sent k), status_code = st, resp_cookies = ck\<rparr>,
       c(req_id req \<mapsto> \<lparr>resp_id = length (sent k), status_code = st, resp_cookies = ck\<rparr>),
       sent k @ [req])"
    using cfree lr assms(4)
    by (intro RequestCache_send_fetch) (simp_all add: RequestCache_contains_def)
  show ?thesis
    using cp lr req send assms(3) k1
    by (simp add: login_def)
qed

theorem login_classifies_status_witness:
  "fst (login (net_status 418) False alice) = Inl (PyException ''login failed with status 418'')"
proof -
  have a: "fresh_ids alice" by (simp add: fresh_ids_def alice_def)
  have b: "fst (login_request alice) = Inr alice_login_request"
    by (simp add: alice_def alice_file_def alice_login_request_def login_request_def
        cfg_defs HEADERS_def)
  have c: "username (config alice) = Inr ''alice''"
    by (simp add: alice_def alice_file_def cfg_defs)
  have d: "net_status 418 (length (sent alice)) alice_login_request = Inr (418, [])"
    by (simp add: net_status_def)
  show ?thesis
    using login_classifies_status
      [of alice alice_login_request "''alice''" "net_status 418" 418 "[]" False, OF a b c d]
    by (simp add: str_int_def str_nat.simps)
qed

subsection \<open>Login state\<close>

text \<open>
  C2. The claim: after a \<^verbatim>\<open>login()\<close> answered with status 200, \<^verbatim>\<open>is_logged_in()\<close> is
  true, and reading \<^verbatim>\<open>cookies\<close> logs in over the network on the first read or after
  the entry was invalidated only. In the session of \<open>alice\<close>, built by the constructor
  from a file with a user name and a token, with a transport that answers 200:
  \<^verbatim>\<open>login()\<close> returns the response, and \<^verbatim>\<open>is_logged_in()\<close> right after it answers
  \<^verbatim>\<open>False\<close>; two reads of \<^verbatim>\<open>cookies\<close> make two network calls; after a login and a
  logout, two reads of \<^verbatim>\<open>cookies\<close> bring the number of network calls to three.
\<close>

theorem login_state_not_cached:
  "Kattis_init alice_fs [] (One_path ''/home/alice/.kattisrc'') = Inr alice \<and>
   fst (login net_ok True alice) = Inr \<lparr>resp_id = 0, status_code = 200, resp_cookies = []\<rparr> \<and>
   fst (is_logged_in (snd (login net_ok True alice))) = Inr False \<and>
   length (sent (snd (Kattis_cookies net_ok alice))) = 1 \<and>
   length (sent (snd (Kattis_cookies net_ok (snd (Kattis_cookies net_ok alice))))) = 2 \<and>
   length (sent (snd (Kattis_cookies net_ok (snd (Kattis_cookies net_ok
     (snd (logout (snd (login net_ok True alice))))))))) = 3"
proof -
  have "fst (login net_ok True alice) = Inr \<lparr>resp_id = 0, status_code = 200, resp_cookies = []\<rparr>"
    by (simp add: alice_def alice_file_def net_ok_def cfg_defs session_defs)
  moreover have "fst (is_logged_in (snd (login net_ok True alice))) = Inr False"
    by (simp add: alice_def alice_file_def net_ok_def cfg_defs session_defs)
  moreover have "length (sent (snd (Kattis_cookies net_ok alice))) = 1"
    by (simp add: alice_def alice_file_def net_ok_def cfg_defs session_defs)
  moreover have
    "length (sent (snd (Kattis_cookies net_ok (snd (Kattis_cookies net_ok alice))))) = 2"
    by (simp add: alice_def alice_file_def net_ok_def cfg_defs session_defs)
  moreover have "length (sent (snd (Kattis_cookies net_ok (snd (Kattis_cookies net_ok
     (snd (logout (snd (login net_ok True alice))))))))) = 3"
    by (simp add: alice_def alice_file_def net_ok_def cfg_defs session_defs)
  ultimately show ?thesis using alice_reachable [of "[]"] by simp
qed

end
